theory Spec2Isabelle
  imports Main "HOL-Library.AList" "HOL-Library.Word"
begin

section \<open>JavaScript values and plain objects\<close>

text \<open>
  The store is schema-free: a record is a plain JavaScript object. The primitive values the
  code compares are modelled by a datatype; on these \<open>===\<close> is equality. A plain object is an
  association list of its own properties in insertion order, and reading a property that is
  not there gives \<open>undefined\<close>.
\<close>

datatype jsval = JUndefined | JNull | JBool bool | JNum int | JStr string

type_synonym obj = "(string \<times> jsval) list"

fun truthy :: "jsval \<Rightarrow> bool" where
  "truthy JUndefined = False"
| "truthy JNull = False"
| "truthy (JBool b) = b"
| "truthy (JNum n) = (n \<noteq> 0)"
| "truthy (JStr s) = (s \<noteq> [])"

definition field :: "obj \<Rightarrow> string \<Rightarrow> jsval" where
  "field ob k = (case map_of ob k of None \<Rightarrow> JUndefined | Some v \<Rightarrow> v)"

text \<open>\<open>this.currentUser?.k\<close>: \<open>undefined\<close> when no user is set.\<close>

definition ufield :: "obj option \<Rightarrow> string \<Rightarrow> jsval" where
  "ufield cu k = (case cu of None \<Rightarrow> JUndefined | Some u \<Rightarrow> field u k)"

text \<open>
  What a caller may hand over where the callee expects an object: a primitive value or an
  object.
\<close>

datatype argument = Prim jsval | Obj obj

text \<open>What a rejected promise or a thrown exception carries.\<close>

datatype exn = TypeError | NotFoundError | ConstraintError | DataError | OperationError
  | InvalidCharacterError | SyntaxError

section \<open>CustomerManager: role-based access filter\<close>

text \<open>
  \<open>applyRoleBasedFilter\<close> and \<open>canAccessCustomer\<close> of \<open>CustomerManager\<close>; \<open>this.currentUser\<close>
  is \<open>null\<close> or the session object (\<open>id\<close>, \<open>username\<close>, \<open>role\<close>, \<open>email\<close>, \<open>financerId\<close>, \<open>loginTime\<close>).
\<close>

definition applyRoleBasedFilter :: "obj option \<Rightarrow> obj list \<Rightarrow> obj list" where
  "applyRoleBasedFilter currentUser customers =
     (case currentUser of
        None \<Rightarrow> []
      | Some u \<Rightarrow>
          if field u ''role'' = JStr ''masterAdmin'' then customers
          else if field u ''role'' = JStr ''financer'' then
            filter (\<lambda>customer. field customer ''financerId'' = field u ''id'') customers
          else if field u ''role'' = JStr ''employee'' then
            filter (\<lambda>customer. field customer ''financerId'' = field u ''financerId'') customers
          else [])"

definition canAccessCustomer :: "obj option \<Rightarrow> obj \<Rightarrow> bool" where
  "canAccessCustomer currentUser customer =
     (case currentUser of
        None \<Rightarrow> False
      | Some u \<Rightarrow>
          if field u ''role'' = JStr ''masterAdmin'' then True
          else if field u ''role'' = JStr ''financer'' then
            field customer ''financerId'' = field u ''id''
          else if field u ''role'' = JStr ''employee'' then
            field customer ''financerId'' = field u ''financerId''
          else False)"

text \<open>Fixtures: the session of the financer \<open>t1\<close>, a customer of tenant \<open>t2\<close> and one of \<open>t1\<close>.\<close>

definition financer_t1 :: obj where
  "financer_t1 = [(''id'', JStr ''t1''), (''username'', JStr ''asha''),
                  (''role'', JStr ''financer''), (''financerId'', JNull)]"

definition customer_t2 :: obj where
  "customer_t2 = [(''id'', JStr ''c7''), (''name'', JStr ''Acme''), (''financerId'', JStr ''t2'')]"

definition customer_t1 :: obj where
  "customer_t1 = [(''id'', JStr ''c3''), (''name'', JStr ''Birla''), (''financerId'', JStr ''t1'')]"

section \<open>EncryptionManager\<close>

text \<open>
  The browser interfaces the module calls are not part of the repository; they are the
  parameters of the model, and each call that can throw returns a sum. \<open>importKey\<close>,
  \<open>pbkdf2_deriveKey\<close>, \<open>gcm_encrypt\<close> and \<open>gcm_decrypt\<close> are \<open>crypto.subtle\<close> with the algorithm
  names the source passes; \<open>utf8_encode\<close> and \<open>utf8_decode\<close> are \<open>TextEncoder\<close> and
  \<open>TextDecoder\<close>. A string holds 8-bit code units, a \<open>Uint8Array\<close> is a list of bytes.
\<close>

type_synonym bytes = "8 word list"

record ('m, 'k) webcrypto =
  importKey :: "bytes \<Rightarrow> exn + 'm"
  pbkdf2_deriveKey :: "bytes \<Rightarrow> nat \<Rightarrow> 'm \<Rightarrow> nat \<Rightarrow> exn + 'k"
  gcm_encrypt :: "bytes \<Rightarrow> 'k \<Rightarrow> bytes \<Rightarrow> exn + bytes"
  gcm_decrypt :: "bytes \<Rightarrow> 'k \<Rightarrow> bytes \<Rightarrow> exn + bytes"
  btoa :: "string \<Rightarrow> exn + string"
  atob :: "string \<Rightarrow> exn + string"
  utf8_encode :: "string \<Rightarrow> bytes"
  utf8_decode :: "bytes \<Rightarrow> string"

text \<open>An \<open>await\<close> inside \<open>try\<close>: the first rejection ends the block.\<close>

definition bindE :: "exn + 'a \<Rightarrow> ('a \<Rightarrow> exn + 'b) \<Rightarrow> exn + 'b" where
  "bindE r f = (case r of Inl e \<Rightarrow> Inl e | Inr v \<Rightarrow> f v)"

text \<open>
  \<open>crypto.getRandomValues\<close> reads the random source. A call of \<open>encrypt\<close> is given the
  tape it will read: first the 16 bytes of the salt, then the 12 bytes of the IV.
\<close>

definition getRandomValues :: "(nat \<Rightarrow> 8 word) \<Rightarrow> nat \<Rightarrow> nat \<Rightarrow> bytes" where
  "getRandomValues tape pos n = map tape [pos ..< pos + n]"

definition deriveKey :: "('m, 'k) webcrypto \<Rightarrow> string \<Rightarrow> bytes \<Rightarrow> exn + 'k" where
  "deriveKey wc password salt =
     bindE (importKey wc (utf8_encode wc password))
       (\<lambda>keyMaterial. pbkdf2_deriveKey wc salt 100000 keyMaterial 256)"

fun fromCharCodes :: "bytes \<Rightarrow> string" where
  "fromCharCodes [] = []"
| "fromCharCodes (b # bs) = char_of (unat b) # fromCharCodes bs"

fun charCodes :: "string \<Rightarrow> bytes" where
  "charCodes [] = []"
| "charCodes (c # cs) = word_of_nat (of_char c) # charCodes cs"

definition arrayBufferToBase64 :: "('m, 'k) webcrypto \<Rightarrow> bytes \<Rightarrow> exn + string" where
  "arrayBufferToBase64 wc buffer = btoa wc (fromCharCodes buffer)"

definition base64ToArrayBuffer :: "('m, 'k) webcrypto \<Rightarrow> string \<Rightarrow> exn + bytes" where
  "base64ToArrayBuffer wc base64 = bindE (atob wc base64) (\<lambda>binary. Inr (charCodes binary))"

text \<open>
  The body of the \<open>try\<close> block of \<open>encrypt\<close>, and \<open>encrypt\<close> with its \<open>catch\<close>. The
  passphrase is always passed here; the source defaults it to \<open>'default-finance-key-2025'\<close>.
  The sum is the promise's outcome: \<open>Inr\<close> resolved, \<open>Inl\<close> rejected.
\<close>

definition encrypt_try ::
  "('m, 'k) webcrypto \<Rightarrow> (nat \<Rightarrow> 8 word) \<Rightarrow> string \<Rightarrow> string \<Rightarrow> exn + string" where
  "encrypt_try wc tape text password =
     (let data = utf8_encode wc text;
          salt = getRandomValues tape 0 16;
          iv = getRandomValues tape 16 12
      in bindE (deriveKey wc password salt) (\<lambda>key.
         bindE (gcm_encrypt wc iv key data) (\<lambda>encrypted.
         arrayBufferToBase64 wc (salt @ iv @ encrypted))))"

definition encrypt ::
  "('m, 'k) webcrypto \<Rightarrow> (nat \<Rightarrow> 8 word) \<Rightarrow> string \<Rightarrow> string \<Rightarrow> exn + string" where
  "encrypt wc tape text password =
     (case encrypt_try wc tape text password of
        Inr blob \<Rightarrow> Inr blob
      | Inl error \<Rightarrow> Inr text)"

text \<open>The body of the \<open>try\<close> block of \<open>decrypt\<close>, and \<open>decrypt\<close> with its \<open>catch\<close>.\<close>

definition decrypt_try :: "('m, 'k) webcrypto \<Rightarrow> string \<Rightarrow> string \<Rightarrow> exn + string" where
  "decrypt_try wc encryptedData password =
     bindE (base64ToArrayBuffer wc encryptedData) (\<lambda>data.
       let salt = take 16 data;
           iv = take 12 (drop 16 data);
           encrypted = drop 28 data
       in bindE (deriveKey wc password salt) (\<lambda>key.
          bindE (gcm_decrypt wc iv key encrypted) (\<lambda>decrypted.
          Inr (utf8_decode wc decrypted))))"

definition decrypt :: "('m, 'k) webcrypto \<Rightarrow> string \<Rightarrow> string \<Rightarrow> exn + string" where
  "decrypt wc encryptedData password =
     (case decrypt_try wc encryptedData password of
        Inr text \<Rightarrow> Inr text
      | Inl error \<Rightarrow> Inr encryptedData)"

subsection \<open>A test double for the browser\<close>

text \<open>
  \<open>tagging\<close> stands in for the browser where a concrete run is evaluated. It keeps the
  contract of an authenticated cipher and nothing else: the key is the salt followed by the
  passphrase, a ciphertext is the data followed by the key and the IV as its tag, and
  decryption rejects with \<open>OperationError\<close> unless the tag matches. Base64 is the identity.
  \<open>no_subtle\<close> is a page outside a secure context, where \<open>crypto.subtle\<close> is undefined and
  the first use of it throws \<open>TypeError\<close>.
\<close>

definition tag_decrypt :: "bytes \<Rightarrow> bytes \<Rightarrow> bytes \<Rightarrow> exn + bytes" where
  "tag_decrypt iv key ct =
     (let n = length key + length iv
      in if n \<le> length ct \<and> drop (length ct - n) ct = key @ iv
         then Inr (take (length ct - n) ct) else Inl OperationError)"

definition tagging :: "(bytes, bytes) webcrypto" where
  "tagging = \<lparr>importKey = (\<lambda>raw. Inr raw),
              pbkdf2_deriveKey = (\<lambda>salt iterations keyMaterial len. Inr (salt @ keyMaterial)),
              gcm_encrypt = (\<lambda>iv key data. Inr (data @ key @ iv)),
              gcm_decrypt = tag_decrypt,
              btoa = (\<lambda>s. Inr s),
              atob = (\<lambda>s. Inr s),
              utf8_encode = charCodes,
              utf8_decode = fromCharCodes\<rparr>"

definition no_subtle :: "(bytes, bytes) webcrypto" where
  "no_subtle = tagging\<lparr>importKey := (\<lambda>raw. Inl TypeError)\<rparr>"

definition tape_up :: "nat \<Rightarrow> 8 word" where
  "tape_up n = word_of_nat (65 + n mod 26)"

definition tape_low :: "nat \<Rightarrow> 8 word" where
  "tape_low n = word_of_nat (97 + n mod 26)"

text \<open>The blob \<open>encrypt\<close> gives on \<open>tagging\<close> for the text "hi", the passphrase "pw" and \<open>tape_up\<close>.\<close>

definition blob_hi :: string where
  "blob_hi = ''ABCDEFGHIJKLMNOPQRSTUVWXYZABhiABCDEFGHIJKLMNOPpwQRSTUVWXYZAB''"

section \<open>FinanceDB\<close>

subsection \<open>The object stores underneath\<close>

text \<open>
  IndexedDB belongs to the browser. An object store is modelled with what the engine's calls
  depend on: its rows (key and stored value, kept in the order of insertion; the browser lists
  them by key, and no result below depends on the order), its key generator, and the key paths
  of its unique indexes. Every store is created with \<open>keyPath: 'id'\<close> and
  \<open>autoIncrement: true\<close>. A request runs in a transaction of its own: it commits, or it
  fails and leaves the store as it was.
\<close>

record objectStore =
  rows :: "(jsval \<times> obj) list"
  keyGenerator :: int
  uniqueIndexes :: "string list"

type_synonym database = "(string \<times> objectStore) list"

fun valid_key :: "jsval \<Rightarrow> bool" where
  "valid_key (JNum n) = True"
| "valid_key (JStr s) = True"
| "valid_key v = False"

definition has_key :: "objectStore \<Rightarrow> jsval \<Rightarrow> bool" where
  "has_key s k = (map_of (rows s) k \<noteq> None)"

text \<open>A unique index already holds the value's entry under another key.\<close>

definition index_clash :: "objectStore \<Rightarrow> jsval \<Rightarrow> obj \<Rightarrow> bool" where
  "index_clash s k v =
     list_ex (\<lambda>ix. valid_key (field v ix) \<and>
                list_ex (\<lambda>row. fst row \<noteq> k \<and> field (snd row) ix = field v ix) (rows s))
       (uniqueIndexes s)"

definition insert_row ::
  "objectStore \<Rightarrow> jsval \<Rightarrow> obj \<Rightarrow> int \<Rightarrow> exn + (jsval \<times> objectStore)" where
  "insert_row s k v g =
     (if has_key s k \<or> index_clash s k v then Inl ConstraintError
      else Inr (k, s\<lparr>rows := rows s @ [(k, v)], keyGenerator := g\<rparr>))"

text \<open>
  The key generator stops at \<open>2^53\<close>: past it, generating a key fails with
  \<open>ConstraintError\<close>; a numeric key given by the caller moves the generator to the key
  (capped at \<open>2^53\<close>) plus one when that is further on.
\<close>

definition generator_limit :: int where
  "generator_limit = 9007199254740992"

definition generator_after :: "int \<Rightarrow> int \<Rightarrow> int" where
  "generator_after g n = max g (min n generator_limit + 1)"

text \<open>\<open>IDBObjectStore.add\<close>: the key is the value's \<open>id\<close>, or a generated one put into it.\<close>

definition store_add :: "objectStore \<Rightarrow> obj \<Rightarrow> exn + (jsval \<times> objectStore)" where
  "store_add s v =
     (case field v ''id'' of
        JUndefined \<Rightarrow>
          if keyGenerator s > generator_limit then Inl ConstraintError
          else insert_row s (JNum (keyGenerator s))
                 (AList.update ''id'' (JNum (keyGenerator s)) v) (keyGenerator s + 1)
      | JNum n \<Rightarrow> insert_row s (JNum n) v (generator_after (keyGenerator s) n)
      | JStr t \<Rightarrow> insert_row s (JStr t) v (keyGenerator s)
      | JNull \<Rightarrow> Inl DataError
      | JBool b \<Rightarrow> Inl DataError)"

definition replace_row ::
  "objectStore \<Rightarrow> jsval \<Rightarrow> obj \<Rightarrow> int \<Rightarrow> exn + (jsval \<times> objectStore)" where
  "replace_row s k v g =
     (if index_clash s k v then Inl ConstraintError
      else Inr (k, s\<lparr>rows := AList.update k v (rows s), keyGenerator := g\<rparr>))"

text \<open>\<open>IDBObjectStore.put\<close>: as \<open>add\<close>, but a row under the same key is overwritten.\<close>

definition store_put :: "objectStore \<Rightarrow> obj \<Rightarrow> exn + (jsval \<times> objectStore)" where
  "store_put s v =
     (case field v ''id'' of
        JUndefined \<Rightarrow>
          if keyGenerator s > generator_limit then Inl ConstraintError
          else replace_row s (JNum (keyGenerator s))
                 (AList.update ''id'' (JNum (keyGenerator s)) v) (keyGenerator s + 1)
      | JNum n \<Rightarrow> replace_row s (JNum n) v (generator_after (keyGenerator s) n)
      | JStr t \<Rightarrow> replace_row s (JStr t) v (keyGenerator s)
      | JNull \<Rightarrow> Inl DataError
      | JBool b \<Rightarrow> Inl DataError)"

text \<open>\<open>IDBObjectStore.delete\<close>: succeeds whether or not the key is there.\<close>

definition store_delete :: "objectStore \<Rightarrow> jsval \<Rightarrow> exn + (unit \<times> objectStore)" where
  "store_delete s k =
     (if valid_key k then Inr ((), s\<lparr>rows := AList.delete k (rows s)\<rparr>)
      else Inl DataError)"

subsection \<open>The engine's state\<close>

text \<open>
  The fields of \<open>FinanceDB\<close> that its methods read (\<open>dbName\<close> is a constant and
  \<open>encryptionKey\<close> is never used). \<open>db\<close> is \<open>null\<close> until an open request has answered.
  \<open>openRequests\<close> lists the versions of the \<open>indexedDB.open\<close> requests that \<open>init\<close> has issued;
  their events arrive later, outside the call that issued them.
\<close>

record financeDB =
  version :: nat
  db :: "database option"
  currentUser :: "obj option"
  isReady :: bool
  openRequests :: "nat list"

text \<open>One reading of the clock: \<open>Date.now()\<close> and \<open>new Date().toLocaleString('en-IN')\<close>.\<close>

record clock =
  now :: int
  localeString :: string

definition contains :: "database \<Rightarrow> string \<Rightarrow> bool" where
  "contains d storeName = (map_of d storeName \<noteq> None)"

text \<open>
  \<open>init\<close> issues the open request at the current version and registers its handlers; it
  awaits nothing. The three handlers follow. \<open>onupgradeneeded\<close> creates each store that the
  database does not contain; \<open>onsuccess\<close> keeps the handle and runs the health check, which
  only reads; \<open>onerror\<close> runs self-healing. Which event answers a request is the browser's
  doing. The engine never closes a handle it holds.
\<close>

definition init :: "financeDB \<Rightarrow> financeDB" where
  "init st = st\<lparr>openRequests := openRequests st @ [version st]\<rparr>"

definition createObjectStore :: "string \<Rightarrow> string list \<Rightarrow> database \<Rightarrow> database" where
  "createObjectStore storeName uniq d =
     (if \<not> contains d storeName
      then d @ [(storeName, \<lparr>rows = [], keyGenerator = 1, uniqueIndexes = uniq\<rparr>)]
      else d)"

definition upgrade :: "database \<Rightarrow> database" where
  "upgrade d =
     createObjectStore ''auditLog'' []
       (createObjectStore ''seizures'' []
         (createObjectStore ''payments'' []
           (createObjectStore ''customers'' [''vehicleNo'']
             (createObjectStore ''financers'' []
               (createObjectStore ''users'' [''email''] d)))))"

definition onupgradeneeded :: "financeDB \<Rightarrow> database \<Rightarrow> financeDB" where
  "onupgradeneeded st d = st\<lparr>db := Some (upgrade d), isReady := True\<rparr>"

definition onsuccess :: "financeDB \<Rightarrow> database \<Rightarrow> financeDB" where
  "onsuccess st d = st\<lparr>db := Some d\<rparr>"

text \<open>The state the constructor leaves: the fields' initial values, then \<open>init\<close>.\<close>

definition new_FinanceDB :: financeDB where
  "new_FinanceDB =
     init \<lparr>version = 1, db = None, currentUser = None, isReady = False, openRequests = []\<rparr>"

definition waitForReady :: "financeDB \<Rightarrow> bool" where
  "waitForReady st = (if isReady st then True else True)"

subsection \<open>Audit logging and the CRUD calls\<close>

text \<open>
  One request in a readwrite transaction on one store of the handle \<open>d\<close>.
\<close>

definition request ::
  "database \<Rightarrow> string \<Rightarrow> (objectStore \<Rightarrow> exn + ('a \<times> objectStore)) \<Rightarrow> (exn + 'a) \<times> database" where
  "request d storeName req =
     (case map_of d storeName of
        None \<Rightarrow> (Inl NotFoundError, d)
      | Some s \<Rightarrow>
          (case req s of
             Inl e \<Rightarrow> (Inl e, d)
           | Inr (r, s') \<Rightarrow> (Inr r, AList.update storeName s' d)))"

text \<open>
  \<open>logAudit\<close> is called without \<open>await\<close> and nothing reads its promise: whatever happens to the
  append, the caller goes on. Only the new state is returned.
\<close>

definition auditEntry :: "obj option \<Rightarrow> clock \<Rightarrow> string \<Rightarrow> string \<Rightarrow> jsval \<Rightarrow> obj" where
  "auditEntry cu clk action target targetId =
     [(''userId'', ufield cu ''id''),
      (''userName'', ufield cu ''name''),
      (''userRole'', ufield cu ''role''),
      (''action'', JStr action),
      (''target'', JStr target),
      (''targetId'', targetId),
      (''timestamp'', JNum (now clk)),
      (''datetime'', JStr (localeString clk))]"

definition logAudit :: "financeDB \<Rightarrow> clock \<Rightarrow> string \<Rightarrow> string \<Rightarrow> jsval \<Rightarrow> financeDB" where
  "logAudit st clk action target targetId =
     (case db st of
        None \<Rightarrow> st
      | Some d \<Rightarrow>
          st\<lparr>db := Some (snd (request d ''auditLog''
                  (\<lambda>s. store_add s (auditEntry (currentUser st) clk action target targetId))))\<rparr>)"

text \<open>
  The shape \<open>add\<close>, \<open>update\<close> and \<open>delete\<close> share: \<open>this.db.transaction([storeName], 'readwrite')\<close>
  (a \<open>TypeError\<close> on a null handle, \<open>NotFoundError\<close> for a store that is not there, both
  before anything is written), then \<open>logAudit\<close>, then the request, whose outcome settles the
  promise. The two transactions are separate. The one on \<open>storeName\<close> is created first, so
  where both are on the same store (\<open>storeName\<close> is \<open>auditLog\<close>) the browser runs it first;
  on different stores the order cannot be observed. The model runs the request, then the append.
\<close>

definition audited ::
  "financeDB \<Rightarrow> clock \<Rightarrow> string \<Rightarrow> string \<Rightarrow> jsval \<Rightarrow>
   (objectStore \<Rightarrow> exn + ('a \<times> objectStore)) \<Rightarrow> (exn + 'a) \<times> financeDB" where
  "audited st clk action storeName targetId req =
     (case db st of
        None \<Rightarrow> (Inl TypeError, st)
      | Some d \<Rightarrow>
          if \<not> contains d storeName then (Inl NotFoundError, st)
          else (fst (request d storeName req),
                logAudit (st\<lparr>db := Some (snd (request d storeName req))\<rparr>)
                  clk action storeName targetId))"

text \<open>
  \<open>add\<close>. Its first lines do not parse as written (\<open>await this.waitForReady();\<close> stands
  between the arrow and the body of the promise's executor); it is read as: wait, then run the
  body. The wait changes nothing: \<open>readyPromise\<close> is the promise of \<open>init\<close>, which awaits nothing.
  Every caller of \<open>add\<close> passes an object for \<open>data\<close>.
\<close>

definition add :: "financeDB \<Rightarrow> clock \<Rightarrow> string \<Rightarrow> obj \<Rightarrow> (exn + jsval) \<times> financeDB" where
  "add st clk storeName data =
     (let ready = waitForReady st;
          encryptedData =
            AList.update ''_createdBy'' (ufield (currentUser st) ''id'')
              (AList.update ''_timestamp'' (JNum (now clk))
                (AList.update ''_encrypted'' (JBool True) data))
      in audited st clk ''ADD'' storeName
           (if truthy (field data ''id'') then field data ''id'' else JStr ''new'')
           (\<lambda>s. store_add s encryptedData))"

text \<open>
  \<open>update(storeName, data)\<close>. Its callers in \<open>CustomerManager\<close> and \<open>AuthSystem\<close> pass three
  arguments, \<open>(storeName, id, data)\<close>, so that \<open>data\<close> is the id, a primitive. A class body is
  strict code: after the transaction is opened, the assignment \<open>data._updatedAt = ...\<close> to a
  primitive throws \<open>TypeError\<close>, before \<open>logAudit\<close> and before any request.
\<close>

definition update ::
  "financeDB \<Rightarrow> clock \<Rightarrow> string \<Rightarrow> argument \<Rightarrow> (exn + jsval) \<times> financeDB" where
  "update st clk storeName data =
     (case db st of
        None \<Rightarrow> (Inl TypeError, st)
      | Some d \<Rightarrow>
          if \<not> contains d storeName then (Inl NotFoundError, st)
          else (case data of
                  Prim v \<Rightarrow> (Inl TypeError, st)
                | Obj ob \<Rightarrow>
                    (let data' =
                           AList.update ''_updatedBy'' (ufield (currentUser st) ''id'')
                             (AList.update ''_updatedAt'' (JNum (now clk)) ob)
                     in audited st clk ''UPDATE'' storeName (field data' ''id'')
                          (\<lambda>s. store_put s data'))))"

definition delete :: "financeDB \<Rightarrow> clock \<Rightarrow> string \<Rightarrow> jsval \<Rightarrow> (exn + unit) \<times> financeDB" where
  "delete st clk storeName ident =
     audited st clk ''DELETE'' storeName ident (\<lambda>s. store_delete s ident)"

definition getAll :: "financeDB \<Rightarrow> string \<Rightarrow> jsval \<Rightarrow> exn + obj list" where
  "getAll st storeName financerId =
     (case db st of
        None \<Rightarrow> Inl TypeError
      | Some d \<Rightarrow>
          (case map_of d storeName of
             None \<Rightarrow> Inl NotFoundError
           | Some s \<Rightarrow>
               if truthy financerId \<and> ufield (currentUser st) ''role'' \<noteq> JStr ''masterAdmin''
               then Inr (filter (\<lambda>r. field r ''financerId'' = financerId) (map snd (rows s)))
               else Inr (map snd (rows s))))"

subsection \<open>Restore\<close>

text \<open>
  \<open>restore\<close> walks \<open>backupData.data\<close> store by store and record by record, awaiting \<open>add\<close>
  for each; the first rejection leaves both loops for the \<open>catch\<close>, which returns \<open>false\<close>.
  \<open>tick n\<close> is the clock as the \<open>n\<close>-th \<open>add\<close> reads it.
\<close>

fun restore_records ::
  "financeDB \<Rightarrow> (nat \<Rightarrow> clock) \<Rightarrow> nat \<Rightarrow> string \<Rightarrow> obj list \<Rightarrow> (exn + nat) \<times> financeDB" where
  "restore_records st tick n storeName [] = (Inr n, st)"
| "restore_records st tick n storeName (record # records) =
     (case add st (tick n) storeName record of
        (Inl error, st') \<Rightarrow> (Inl error, st')
      | (Inr key, st') \<Rightarrow> restore_records st' tick (Suc n) storeName records)"

fun restore_stores ::
  "financeDB \<Rightarrow> (nat \<Rightarrow> clock) \<Rightarrow> nat \<Rightarrow> (string \<times> obj list) list \<Rightarrow> (exn + nat) \<times> financeDB" where
  "restore_stores st tick n [] = (Inr n, st)"
| "restore_stores st tick n ((storeName, records) # rest) =
     (case restore_records st tick n storeName records of
        (Inl error, st') \<Rightarrow> (Inl error, st')
      | (Inr n', st') \<Rightarrow> restore_stores st' tick n' rest)"

definition restore ::
  "financeDB \<Rightarrow> (nat \<Rightarrow> clock) \<Rightarrow> (string \<times> obj list) list \<Rightarrow> bool \<times> financeDB" where
  "restore st tick backupData =
     (case restore_stores st tick 0 backupData of
        (Inl error, st') \<Rightarrow> (False, st')
      | (Inr n, st') \<Rightarrow> (True, st'))"

subsection \<open>Self-healing\<close>

definition healed_stores :: "string list" where
  "healed_stores = [''users'', ''financers'', ''customers'', ''payments'', ''seizures'']"

definition runSelfHealing :: "financeDB \<Rightarrow> financeDB" where
  "runSelfHealing st =
     (case db st of
        None \<Rightarrow> init st
      | Some d \<Rightarrow>
          foldl (\<lambda>s storeName.
                   if \<not> contains d storeName then init (s\<lparr>version := version s + 1\<rparr>) else s)
            st healed_stores)"

definition onerror :: "financeDB \<Rightarrow> financeDB" where
  "onerror st = runSelfHealing st"

subsection \<open>CustomerManager.getCustomer\<close>



record reply =
  success :: bool
  message :: "string option"
  customer :: "obj option"


subsection \<open>Reading the state\<close>

text \<open>
  The store of a name, and the row under a key in it; nothing where the handle, the store
  or the row is missing.
\<close>

definition rowd :: "database \<Rightarrow> string \<Rightarrow> jsval \<Rightarrow> obj option" where
  "rowd d storeName k = (case map_of d storeName of None \<Rightarrow> None | Some s \<Rightarrow> map_of (rows s) k)"

definition row_of :: "financeDB \<Rightarrow> string \<Rightarrow> jsval \<Rightarrow> obj option" where
  "row_of st storeName k = (case db st of None \<Rightarrow> None | Some d \<Rightarrow> rowd d storeName k)"

definition store_of :: "financeDB \<Rightarrow> string \<Rightarrow> objectStore option" where
  "store_of st storeName = (case db st of None \<Rightarrow> None | Some d \<Rightarrow> map_of d storeName)"

text \<open>The audit store after one more entry: what \<open>store_add\<close> makes of an object without \<open>id\<close>.\<close>

definition logged :: "objectStore \<Rightarrow> obj \<Rightarrow> objectStore" where
  "logged a entry =
     a\<lparr>rows := rows a @ [(JNum (keyGenerator a), AList.update ''id'' (JNum (keyGenerator a)) entry)],
       keyGenerator := keyGenerator a + 1\<rparr>"

text \<open>The object \<open>add\<close> hands to the store: \<open>data\<close> with its three stamps.\<close>

definition stamped :: "obj option \<Rightarrow> clock \<Rightarrow> obj \<Rightarrow> obj" where
  "stamped cu clk data =
     AList.update ''_createdBy'' (ufield cu ''id'')
       (AList.update ''_timestamp'' (JNum (now clk))
         (AList.update ''_encrypted'' (JBool True) data))"

text \<open>
  The state after a mutating call on the store \<open>storeName\<close> of the handle \<open>d\<close>, whose audit
  store was \<open>a\<close>, when the request had the outcome \<open>res\<close>: the audit store has the entry in
  either case, the store has the request's result if it succeeded and is as it was if not.
\<close>

definition settled ::
  "financeDB \<Rightarrow> database \<Rightarrow> string \<Rightarrow> objectStore \<Rightarrow> obj \<Rightarrow>
   exn + ('a \<times> objectStore) \<Rightarrow> (exn + 'a) \<times> financeDB" where
  "settled st d storeName a entry res =
     (case res of
        Inl e \<Rightarrow> (Inl e, st\<lparr>db := Some (AList.update ''auditLog'' (logged a entry) d)\<rparr>)
      | Inr (r, s') \<Rightarrow>
          (Inr r, st\<lparr>db := Some (AList.update ''auditLog'' (logged a entry)
                                   (AList.update storeName s' d))\<rparr>))"

text \<open>
  What the words "replays each record as a create, in order" say of \<open>restore\<close>: the
  records of the snapshot in one sequence, and \<open>add\<close> for each in turn until one fails
  (\<open>Inl\<close>, with the state as the failing \<open>add\<close> left it) or all are done (\<open>Inr\<close>).
\<close>

definition records_of :: "(string \<times> obj list) list \<Rightarrow> (string \<times> obj) list" where
  "records_of backupData = concat (map (\<lambda>(storeName, records). map (Pair storeName) records) backupData)"

fun replay ::
  "financeDB \<Rightarrow> (nat \<Rightarrow> clock) \<Rightarrow> nat \<Rightarrow> (string \<times> obj) list \<Rightarrow> (exn + nat) \<times> financeDB" where
  "replay st tick n [] = (Inr n, st)"
| "replay st tick n ((storeName, r) # rest) =
     (case add st (tick n) storeName r of
        (Inl e, st') \<Rightarrow> (Inl e, st')
      | (Inr key, st') \<Rightarrow> replay st' tick (Suc n) rest)"

subsection \<open>Fixtures\<close>

definition empty_store :: "string list \<Rightarrow> objectStore" where
  "empty_store uniq = \<lparr>rows = [], keyGenerator = 1, uniqueIndexes = uniq\<rparr>"

text \<open>A live database: the customer of tenant \<open>t1\<close> and the customer of tenant \<open>t2\<close>.\<close>

definition live_db :: database where
  "live_db = [(''users'', empty_store [''email'']),
              (''financers'', empty_store []),
              (''customers'', \<lparr>rows = [(JStr ''c3'', customer_t1), (JStr ''c7'', customer_t2)],
                               keyGenerator = 1, uniqueIndexes = [''vehicleNo'']\<rparr>),
              (''payments'', empty_store []),
              (''seizures'', empty_store []),
              (''auditLog'', empty_store [])]"

definition live :: financeDB where
  "live = \<lparr>version = 1, db = Some live_db, currentUser = Some financer_t1, isReady = True,
           openRequests = []\<rparr>"

definition noon :: clock where
  "noon = \<lparr>now = 1700000000000, localeString = ''14/11/2023, 10:13:20 pm''\<rparr>"

text \<open>
  A snapshot for \<open>restore\<close>: a customer under the id \<open>c3\<close>, which the live store holds
  already with another name, and after it a customer under the new id \<open>c9\<close>. A second
  snapshot holds the new customer only.
\<close>

definition customer_c3_other :: obj where
  "customer_c3_other = [(''id'', JStr ''c3''), (''name'', JStr ''Tata''), (''financerId'', JStr ''t1'')]"

definition customer_c9 :: obj where
  "customer_c9 = [(''id'', JStr ''c9''), (''name'', JStr ''Godrej''), (''financerId'', JStr ''t1'')]"

definition snapshot :: "(string \<times> obj list) list" where
  "snapshot = [(''customers'', [customer_c3_other, customer_c9])]"

definition snapshot_new :: "(string \<times> obj list) list" where
  "snapshot_new = [(''customers'', [customer_c9])]"

text \<open>The live engine on a database that has no \<open>auditLog\<close> store, and one without \<open>customers\<close>.\<close>

definition live_no_audit :: financeDB where
  "live_no_audit = live\<lparr>db := Some (AList.delete ''auditLog'' live_db)\<rparr>"

definition db_no_customers :: database where
  "db_no_customers = AList.delete ''customers'' live_db"

definition live_no_customers :: financeDB where
  "live_no_customers = live\<lparr>db := Some db_no_customers\<rparr>"

section \<open>Access filter: results\<close>

text \<open>
  C10. With no authenticated identity (\<open>currentUser\<close> is \<open>null\<close>) the access filter fails
  closed: \<open>applyRoleBasedFilter\<close> returns the empty list for every list of records and
  \<open>canAccessCustomer\<close> returns false for every record.
\<close>

theorem C10_no_identity_fails_closed:
  "applyRoleBasedFilter None customers = [] \<and> canAccessCustomer None c = False"
  by (simp add: applyRoleBasedFilter_def canAccessCustomer_def)

theorem C10_no_identity_fails_closed_witness:
  "applyRoleBasedFilter None [customer_t1, customer_t2] = []
   \<and> canAccessCustomer None customer_t2 = False"
  using C10_no_identity_fails_closed [of "[customer_t1, customer_t2]" customer_t2] by simp



section \<open>EncryptionManager: results\<close>

lemma charCodes_fromCharCodes: "charCodes (fromCharCodes bs) = bs"
proof (induction bs)
  case Nil
  show ?case by simp
next
  case (Cons b bs)
  have "unat b mod 256 = unat b"
    using unsigned_less [of b, where ?'a = nat] by simp
  then show ?case using Cons by simp
qed

lemma fromCharCodes_inj: "fromCharCodes a = fromCharCodes b \<Longrightarrow> a = b"
  by (metis charCodes_fromCharCodes)

lemma length_getRandomValues: "length (getRandomValues tape pos n) = n"
  by (simp add: getRandomValues_def)

lemma encrypt_try_InrD:
  assumes "encrypt_try wc tape x p = Inr blob"
  obtains key c where
    "deriveKey wc p (getRandomValues tape 0 16) = Inr key"
    "gcm_encrypt wc (getRandomValues tape 16 12) key (utf8_encode wc x) = Inr c"
    "btoa wc (fromCharCodes (getRandomValues tape 0 16 @ getRandomValues tape 16 12 @ c)) = Inr blob"
  using assms
  by (auto simp: encrypt_try_def Let_def bindE_def arrayBufferToBase64_def split: sum.splits)

lemma encrypt_try_blob:
  assumes "encrypt_try wc tape x p = Inr blob"
  shows "\<exists>c. btoa wc (fromCharCodes (getRandomValues tape 0 16 @ getRandomValues tape 16 12 @ c))
             = Inr blob"
  using assms by (rule encrypt_try_InrD) blast

lemma decrypt_try_of_blob:
  assumes b64: "atob wc blob = Inr (fromCharCodes (salt @ iv @ c))"
    and ls: "length salt = 16" and li: "length iv = 12"
  shows "decrypt_try wc blob p' =
         bindE (deriveKey wc p' salt) (\<lambda>key.
           bindE (gcm_decrypt wc iv key c) (\<lambda>d. Inr (utf8_decode wc d)))"
  by (simp add: decrypt_try_def base64ToArrayBuffer_def b64 bindE_def
      charCodes_fromCharCodes ls li cong: sum.case_cong)

lemma tag_decrypt_roundtrip: "tag_decrypt iv key (d @ key @ iv) = Inr d"
  by (simp add: tag_decrypt_def)

text \<open>Unfolding a concrete run on the test double.\<close>

lemmas run_crypto = encrypt_def encrypt_try_def decrypt_def decrypt_try_def tagging_def
  no_subtle_def bindE_def deriveKey_def getRandomValues_def tape_up_def tape_low_def
  arrayBufferToBase64_def base64ToArrayBuffer_def tag_decrypt_def blob_hi_def
  upt_conv_Cons char_of_def bit_Suc_0_iff

lemma encrypt_hi: "encrypt_try tagging tape_up ''hi'' ''pw'' = Inr blob_hi"
  by (simp add: run_crypto)

lemma encrypt_hi_low:
  "encrypt_try tagging tape_low ''hi'' ''pw''
     = Inr ''abcdefghijklmnopqrstuvwxyzabhiabcdefghijklmnoppwqrstuvwxyzab''"
  by (simp add: run_crypto)

lemma decrypt_hi_wrong: "decrypt_try tagging blob_hi ''px'' = Inl OperationError"
  by (simp add: run_crypto)

lemma encrypt_no_subtle: "encrypt_try no_subtle tape ''hi'' ''pw'' = Inl TypeError"
  by (simp add: encrypt_try_def no_subtle_def tagging_def bindE_def deriveKey_def)

text \<open>
  C1 as stated: a failed decryption gives a typed error and never the input passed through,
  and a failed encryption never gives back the plaintext. It fails on both sides: under the
  wrong passphrase "px" the tag check rejects \<open>blob_hi\<close> and \<open>decrypt\<close> resolves with \<open>blob_hi\<close>
  itself; where \<open>crypto.subtle\<close> is missing, \<open>encrypt\<close> resolves with the plaintext "hi".
\<close>

theorem C1_passthrough_counterexample:
  "decrypt_try tagging blob_hi ''px'' = Inl OperationError
   \<and> decrypt tagging blob_hi ''px'' = Inr blob_hi
   \<and> encrypt_try no_subtle tape_up ''hi'' ''pw'' = Inl TypeError
   \<and> encrypt no_subtle tape_up ''hi'' ''pw'' = Inr ''hi''"
  by (simp add: decrypt_hi_wrong encrypt_no_subtle decrypt_def encrypt_def)

text \<open>
  C1 as amended. \<open>decrypt\<close> and \<open>encrypt\<close> never reject. When the tag check (or any other
  step of decryption) fails, \<open>decrypt\<close> resolves with the input blob unchanged; when any step
  of encryption fails, \<open>encrypt\<close> resolves with the plaintext unchanged.
\<close>

theorem C1_failure_returns_input:
  "(base64ToArrayBuffer wc blob = Inr data \<longrightarrow> deriveKey wc p (take 16 data) = Inr key \<longrightarrow>
      gcm_decrypt wc (take 12 (drop 16 data)) key (drop 28 data) = Inl e \<longrightarrow>
      decrypt wc blob p = Inr blob)
   \<and> (decrypt_try wc blob p = Inl e \<longrightarrow> decrypt wc blob p = Inr blob)
   \<and> (encrypt_try wc' tape x p' = Inl e' \<longrightarrow> encrypt wc' tape x p' = Inr x)"
  by (simp add: decrypt_def decrypt_try_def encrypt_def bindE_def)

theorem C1_failure_returns_input_witness:
  "base64ToArrayBuffer tagging blob_hi = Inr (charCodes blob_hi)
   \<and> deriveKey tagging ''px'' (take 16 (charCodes blob_hi))
       = Inr (take 16 (charCodes blob_hi) @ charCodes ''px'')
   \<and> gcm_decrypt tagging (take 12 (drop 16 (charCodes blob_hi)))
        (take 16 (charCodes blob_hi) @ charCodes ''px'') (drop 28 (charCodes blob_hi))
       = Inl OperationError
   \<and> decrypt_try tagging blob_hi ''px'' = Inl OperationError
   \<and> decrypt tagging blob_hi ''px'' = Inr blob_hi
   \<and> encrypt_try no_subtle tape_up ''hi'' ''pw'' = Inl TypeError
   \<and> encrypt no_subtle tape_up ''hi'' ''pw'' = Inr ''hi''"
proof -
  have h1: "base64ToArrayBuffer tagging blob_hi = Inr (charCodes blob_hi)"
    by (simp add: base64ToArrayBuffer_def tagging_def bindE_def)
  have h2: "deriveKey tagging ''px'' (take 16 (charCodes blob_hi))
              = Inr (take 16 (charCodes blob_hi) @ charCodes ''px'')"
    by (simp add: deriveKey_def tagging_def bindE_def)
  have h3: "gcm_decrypt tagging (take 12 (drop 16 (charCodes blob_hi)))
              (take 16 (charCodes blob_hi) @ charCodes ''px'') (drop 28 (charCodes blob_hi))
              = Inl OperationError"
    by (simp add: tagging_def tag_decrypt_def blob_hi_def)
  note h4 = decrypt_hi_wrong
  note h5 = encrypt_no_subtle [of tape_up]
  from C1_failure_returns_input [of tagging blob_hi "charCodes blob_hi" "''px''"
      "take 16 (charCodes blob_hi) @ charCodes ''px''" OperationError
      no_subtle tape_up "''hi''" "''pw''" TypeError] h1 h2 h3 h4 h5
  show ?thesis by simp
qed

text \<open>
  C3 as stated: under a passphrase other than the one used to encrypt, \<open>decrypt\<close> fails with
  an authentication error rather than returning a value. It fails: \<open>blob_hi\<close> was made with
  "pw", and under "px" \<open>decrypt\<close> resolves with the value \<open>blob_hi\<close>.
\<close>

theorem C3_wrong_passphrase_counterexample:
  "encrypt tagging tape_up ''hi'' ''pw'' = Inr blob_hi
   \<and> ''px'' \<noteq> ''pw''
   \<and> decrypt tagging blob_hi ''px'' = Inr blob_hi"
  by (simp add: encrypt_def encrypt_hi decrypt_def decrypt_hi_wrong)

text \<open>
  C3 as amended. On a platform whose text codec, base64 and AES-GCM round-trip, for every
  plaintext \<open>x\<close> and passphrase \<open>p\<close> whose encryption succeeds, \<open>decrypt (encrypt x p) p\<close> is \<open>x\<close>;
  and for a passphrase \<open>p'\<close> under which decryption of that blob fails, \<open>decrypt\<close> does not
  fail: it resolves with the blob itself.
\<close>

theorem C3_roundtrip_and_wrong_passphrase:
  assumes utf8: "utf8_decode wc (utf8_encode wc x) = x"
    and b64: "\<And>s t. btoa wc s = Inr t \<Longrightarrow> atob wc t = Inr s"
    and aead: "\<And>iv k d c. gcm_encrypt wc iv k d = Inr c \<Longrightarrow> gcm_decrypt wc iv k c = Inr d"
    and enc: "encrypt_try wc tape x p = Inr blob"
  shows "encrypt wc tape x p = Inr blob \<and> decrypt wc blob p = Inr x
         \<and> (decrypt_try wc blob p' = Inl e \<longrightarrow> decrypt wc blob p' = Inr blob)"
proof -
  from enc obtain key c where
    k: "deriveKey wc p (getRandomValues tape 0 16) = Inr key" and
    c: "gcm_encrypt wc (getRandomValues tape 16 12) key (utf8_encode wc x) = Inr c" and
    b: "btoa wc (fromCharCodes (getRandomValues tape 0 16 @ getRandomValues tape 16 12 @ c)) = Inr blob"
    by (rule encrypt_try_InrD)
  have "decrypt_try wc blob p =
        bindE (deriveKey wc p (getRandomValues tape 0 16)) (\<lambda>key.
          bindE (gcm_decrypt wc (getRandomValues tape 16 12) key c) (\<lambda>d. Inr (utf8_decode wc d)))"
    by (rule decrypt_try_of_blob [OF b64 [OF b]]) (simp_all add: length_getRandomValues)
  also have "\<dots> = Inr x"
    by (simp add: k aead [OF c] bindE_def utf8)
  finally have "decrypt wc blob p = Inr x" by (simp add: decrypt_def)
  moreover have "encrypt wc tape x p = Inr blob" by (simp add: encrypt_def enc)
  moreover have "decrypt_try wc blob p' = Inl e \<longrightarrow> decrypt wc blob p' = Inr blob"
    by (simp add: decrypt_def)
  ultimately show ?thesis by blast
qed

theorem C3_roundtrip_and_wrong_passphrase_witness:
  "encrypt tagging tape_up ''hi'' ''pw'' = Inr blob_hi
   \<and> decrypt tagging blob_hi ''pw'' = Inr ''hi''
   \<and> decrypt_try tagging blob_hi ''px'' = Inl OperationError
   \<and> decrypt tagging blob_hi ''px'' = Inr blob_hi"
proof -
  have h1: "utf8_decode tagging (utf8_encode tagging ''hi'') = ''hi''"
    by (simp add: tagging_def char_of_def bit_Suc_0_iff)
  have h2: "\<And>s t. btoa tagging s = Inr t \<Longrightarrow> atob tagging t = Inr s"
    by (simp add: tagging_def)
  have h3: "\<And>iv k d c. gcm_encrypt tagging iv k d = Inr c \<Longrightarrow> gcm_decrypt tagging iv k c = Inr d"
    by (auto simp: tagging_def tag_decrypt_roundtrip)
  from C3_roundtrip_and_wrong_passphrase [OF h1 h2 h3 encrypt_hi, of "''px''" OperationError]
    decrypt_hi_wrong
  show ?thesis by simp
qed

text \<open>
  C9 as stated: two calls of \<open>encrypt\<close> on the same plaintext and passphrase give two
  different blobs. It fails where encryption itself fails: with \<open>crypto.subtle\<close> missing, two
  calls that draw different salts both resolve with the plaintext.
\<close>

theorem C9_same_result_counterexample:
  "getRandomValues tape_up 0 16 \<noteq> getRandomValues tape_low 0 16
   \<and> encrypt no_subtle tape_up ''hi'' ''pw'' = encrypt no_subtle tape_low ''hi'' ''pw''"
  by (simp add: encrypt_def encrypt_no_subtle getRandomValues_def tape_up_def tape_low_def
      upt_conv_Cons)

text \<open>
  C9 as amended. Every call of \<open>encrypt\<close> draws a 16-byte salt and a 12-byte IV from the
  random source. When encryption succeeds in both of two calls on the same plaintext and
  passphrase, and the salt or the IV drawn differ, the two blobs differ (base64 being
  injective).
\<close>

theorem C9_fresh_draws_give_different_blobs:
  assumes inj: "\<And>s t u. btoa wc s = Inr u \<Longrightarrow> btoa wc t = Inr u \<Longrightarrow> s = t"
    and e1: "encrypt_try wc tape1 x p = Inr b1"
    and e2: "encrypt_try wc tape2 x p = Inr b2"
    and diff: "getRandomValues tape1 0 16 \<noteq> getRandomValues tape2 0 16
               \<or> getRandomValues tape1 16 12 \<noteq> getRandomValues tape2 16 12"
  shows "encrypt wc tape1 x p \<noteq> encrypt wc tape2 x p"
proof
  assume eq: "encrypt wc tape1 x p = encrypt wc tape2 x p"
  from e1 e2 eq have bb: "b1 = b2" by (simp add: encrypt_def)
  from encrypt_try_blob [OF e1] obtain c1 where
    b1: "btoa wc (fromCharCodes (getRandomValues tape1 0 16 @ getRandomValues tape1 16 12 @ c1)) = Inr b1"
    by blast
  from encrypt_try_blob [OF e2] obtain c2 where
    b2: "btoa wc (fromCharCodes (getRandomValues tape2 0 16 @ getRandomValues tape2 16 12 @ c2)) = Inr b2"
    by blast
  from inj [OF b1 b2 [folded bb]]
  have "getRandomValues tape1 0 16 @ getRandomValues tape1 16 12 @ c1
        = getRandomValues tape2 0 16 @ getRandomValues tape2 16 12 @ c2"
    by (rule fromCharCodes_inj)
  then have "getRandomValues tape1 0 16 = getRandomValues tape2 0 16
             \<and> getRandomValues tape1 16 12 = getRandomValues tape2 16 12"
    by (simp add: length_getRandomValues)
  with diff show False by blast
qed

theorem C9_fresh_draws_give_different_blobs_witness:
  "getRandomValues tape_up 0 16 \<noteq> getRandomValues tape_low 0 16
   \<and> encrypt tagging tape_up ''hi'' ''pw'' \<noteq> encrypt tagging tape_low ''hi'' ''pw''"
proof -
  have h1: "\<And>s t u. btoa tagging s = Inr u \<Longrightarrow> btoa tagging t = Inr u \<Longrightarrow> s = t"
    by (simp add: tagging_def)
  have h4: "getRandomValues tape_up 0 16 \<noteq> getRandomValues tape_low 0 16"
    by (simp add: getRandomValues_def tape_up_def tape_low_def upt_conv_Cons)
  then have h4': "getRandomValues tape_up 0 16 \<noteq> getRandomValues tape_low 0 16
                  \<or> getRandomValues tape_up 16 12 \<noteq> getRandomValues tape_low 16 12"
    by blast
  have "encrypt tagging tape_up ''hi'' ''pw'' \<noteq> encrypt tagging tape_low ''hi'' ''pw''"
    using h1 encrypt_hi encrypt_hi_low h4'
    by (rule C9_fresh_draws_give_different_blobs [of tagging])
  with h4 show ?thesis by blast
qed

section \<open>FinanceDB: results\<close>

text \<open>Unfolding a concrete run of the engine.\<close>

lemmas run_db = add_def update_def delete_def getAll_def audited_def logAudit_def request_def
  auditEntry_def store_add_def store_put_def store_delete_def insert_row_def replace_row_def
  has_key_def index_clash_def contains_def waitForReady_def field_def ufield_def
  generator_limit_def generator_after_def
  live_def live_db_def empty_store_def noon_def financer_t1_def customer_t1_def customer_t2_def
  new_FinanceDB_def init_def row_of_def rowd_def store_of_def

subsection \<open>Restore\<close>

lemma field_update_other: "k \<noteq> k' \<Longrightarrow> field (AList.update k' v ob) k = field ob k"
  by (simp add: field_def update_conv')

lemma field_stamped_id: "field (stamped cu clk r) ''id'' = field r ''id''"
  by (simp add: stamped_def field_update_other)

lemma insert_row_keeps:
  assumes "insert_row s k v g = Inr (k', s')" and "map_of (rows s) k0 = Some v0"
  shows "map_of (rows s') k0 = Some v0"
  using assms by (auto simp: insert_row_def has_key_def map_add_def split: if_splits)

lemma insert_row_stores:
  assumes "insert_row s k v g = Inr (k', s')"
  shows "map_of (rows s') k = Some v"
  using assms by (auto simp: insert_row_def has_key_def map_add_def split: if_splits)

lemma store_add_keeps:
  assumes "store_add s x = Inr (k', s')" and "map_of (rows s) k0 = Some v0"
  shows "map_of (rows s') k0 = Some v0"
  using assms by (auto simp: store_add_def split: jsval.splits if_splits dest: insert_row_keeps)

lemma store_add_stores:
  assumes "store_add s x = Inr (k', s')" and "valid_key (field x ''id'')"
  shows "map_of (rows s') (field x ''id'') = Some x"
  using assms by (auto simp: store_add_def split: jsval.splits dest: insert_row_stores)

lemma request_add_keeps:
  assumes "rowd d n k0 = Some v0"
  shows "rowd (snd (request d sn (\<lambda>s. store_add s x))) n k0 = Some v0"
proof (cases "map_of d sn")
  case None
  then show ?thesis using assms by (simp add: request_def)
next
  case (Some s)
  show ?thesis
  proof (cases "store_add s x")
    case (Inl e)
    then show ?thesis using Some assms by (simp add: request_def)
  next
    case (Inr p)
    obtain k' s' where p: "p = (k', s')" by (cases p)
    show ?thesis
    proof (cases "n = sn")
      case True
      with assms Some have "map_of (rows s) k0 = Some v0" by (simp add: rowd_def)
      from store_add_keeps [OF Inr [unfolded p] this]
      show ?thesis using Some Inr p True by (simp add: request_def rowd_def update_conv')
    next
      case False
      then show ?thesis using Some Inr p assms by (simp add: request_def rowd_def update_conv')
    qed
  qed
qed

lemma logAudit_keeps:
  assumes "row_of st n k0 = Some v0"
  shows "row_of (logAudit st clk a t i) n k0 = Some v0"
  using assms
  by (auto simp: row_of_def logAudit_def request_add_keeps split: option.splits)

lemma add_keeps:
  assumes "row_of st n k0 = Some v0"
  shows "row_of (snd (add st clk sn data)) n k0 = Some v0"
proof (cases "db st")
  case None
  then show ?thesis using assms by (simp add: row_of_def)
next
  case (Some d)
  show ?thesis
  proof (cases "contains d sn")
    case False
    then show ?thesis using Some assms by (simp add: add_def audited_def Let_def)
  next
    case True
    from assms Some have "rowd d n k0 = Some v0" by (simp add: row_of_def)
    then have "row_of (st\<lparr>db := Some (snd (request d sn (\<lambda>s. store_add s x)))\<rparr>) n k0 = Some v0" for x
      by (simp add: row_of_def request_add_keeps)
    then show ?thesis using Some True
      by (simp add: add_def audited_def Let_def logAudit_keeps)
  qed
qed

lemma add_currentUser: "currentUser (snd (add st clk sn data)) = currentUser st"
  by (simp add: add_def audited_def logAudit_def Let_def split: option.splits)

lemma add_stamped:
  "add st clk sn data =
     audited st clk ''ADD'' sn
       (if truthy (field data ''id'') then field data ''id'' else JStr ''new'')
       (\<lambda>s. store_add s (stamped (currentUser st) clk data))"
  by (simp add: add_def stamped_def Let_def)

lemma add_conflict:
  assumes "row_of st sn (field r ''id'') = Some v" and "field r ''id'' \<noteq> JUndefined"
  shows "\<exists>e. fst (add st clk sn r) = Inl e"
proof -
  from assms(1) obtain d s where d: "db st = Some d" and s: "map_of d sn = Some s"
    and k: "map_of (rows s) (field r ''id'') = Some v"
    by (auto simp: row_of_def rowd_def split: option.splits)
  have "\<exists>e. store_add s (stamped (currentUser st) clk r) = Inl e"
    using k assms(2) unfolding store_add_def field_stamped_id
    by (cases "field r ''id''") (simp_all add: insert_row_def has_key_def)
  then show ?thesis using d s
    by (auto simp: add_stamped audited_def contains_def request_def)
qed

lemma add_stores:
  assumes ok: "add st clk sn r = (Inr key, st')" and vk: "valid_key (field r ''id'')"
  shows "row_of st' sn (field r ''id'') = Some (stamped (currentUser st) clk r)"
proof -
  let ?x = "stamped (currentUser st) clk r"
  from ok obtain d where d: "db st = Some d" and c: "contains d sn"
    by (auto simp: add_stamped audited_def split: option.splits if_splits)
  from c obtain s where s: "map_of d sn = Some s" by (auto simp: contains_def)
  from ok d c s obtain s' where sa: "store_add s ?x = Inr (key, s')"
    by (auto simp: add_stamped audited_def request_def split: sum.splits)
  from store_add_stores [OF sa] vk have "map_of (rows s') (field r ''id'') = Some ?x"
    by (simp add: field_stamped_id)
  then have "row_of (st\<lparr>db := Some (snd (request d sn (\<lambda>s. store_add s ?x)))\<rparr>) sn (field r ''id'')
             = Some ?x"
    using s sa by (simp add: row_of_def rowd_def request_def update_conv')
  from logAudit_keeps [OF this] ok d c show ?thesis
    by (auto simp: add_stamped audited_def)
qed

lemma replay_keeps:
  assumes "row_of st n k0 = Some v0"
  shows "row_of (snd (replay st tick i xs)) n k0 = Some v0"
  using assms
proof (induction xs arbitrary: st i)
  case Nil
  then show ?case by simp
next
  case (Cons x xs)
  obtain sn r where x: "x = (sn, r)" by (cases x)
  obtain res st' where a: "add st (tick i) sn r = (res, st')" by (cases "add st (tick i) sn r")
  from add_keeps [OF Cons.prems, of "tick i" sn r] a
  have k: "row_of st' n k0 = Some v0" by simp
  show ?case
  proof (cases res)
    case (Inl e)
    then show ?thesis using a k x by simp
  next
    case (Inr key)
    then show ?thesis using a x Cons.IH [OF k] by simp
  qed
qed

lemma replay_conflict:
  assumes "(sn, r) \<in> set xs" and "row_of st sn (field r ''id'') = Some v"
    and "field r ''id'' \<noteq> JUndefined"
  shows "\<exists>e. fst (replay st tick i xs) = Inl e"
  using assms
proof (induction xs arbitrary: st i)
  case Nil
  then show ?case by simp
next
  case (Cons x xs)
  obtain sn0 r0 where x: "x = (sn0, r0)" by (cases x)
  obtain res st' where a: "add st (tick i) sn0 r0 = (res, st')" by (cases "add st (tick i) sn0 r0")
  show ?case
  proof (cases res)
    case (Inl e)
    then show ?thesis using a x by simp
  next
    case (Inr key)
    have "(sn, r) \<noteq> (sn0, r0)"
    proof
      assume "(sn, r) = (sn0, r0)"
      with add_conflict [OF Cons.prems(2,3), of "tick i"] a Inr show False by simp
    qed
    with Cons.prems(1) x have m: "(sn, r) \<in> set xs" by auto
    from add_keeps [OF Cons.prems(2), of "tick i" sn0 r0] a
    have "row_of st' sn (field r ''id'') = Some v" by simp
    from Cons.IH [OF m this Cons.prems(3)] show ?thesis using a x Inr by simp
  qed
qed

lemma replay_stored:
  assumes "replay st tick i xs = (Inr m, st')" and "(sn, r) \<in> set xs"
    and "valid_key (field r ''id'')"
  shows "\<exists>j. row_of st' sn (field r ''id'') = Some (stamped (currentUser st) (tick j) r)"
  using assms
proof (induction xs arbitrary: st i)
  case Nil
  then show ?case by simp
next
  case (Cons x xs)
  obtain sn0 r0 where x: "x = (sn0, r0)" by (cases x)
  obtain res st1 where a: "add st (tick i) sn0 r0 = (res, st1)" by (cases "add st (tick i) sn0 r0")
  from Cons.prems(1) a x obtain key where res: "res = Inr key"
    by (cases res) auto
  with Cons.prems(1) a x have rest: "replay st1 tick (Suc i) xs = (Inr m, st')" by simp
  have cu: "currentUser st1 = currentUser st"
    using add_currentUser [of st "tick i" sn0 r0] a by simp
  show ?case
  proof (cases "(sn, r) = (sn0, r0)")
    case True
    from add_stores [OF a [unfolded res]] True Cons.prems(3)
    have "row_of st1 sn (field r ''id'') = Some (stamped (currentUser st) (tick i) r)" by simp
    from replay_keeps [OF this, of tick "Suc i" xs] rest show ?thesis by auto
  next
    case False
    with Cons.prems(2) x have "(sn, r) \<in> set xs" by auto
    from Cons.IH [OF rest this Cons.prems(3)] cu show ?thesis by simp
  qed
qed

lemma replay_append:
  "replay st tick i (xs @ ys) =
     (case replay st tick i xs of
        (Inl e, st') \<Rightarrow> (Inl e, st')
      | (Inr m, st') \<Rightarrow> replay st' tick m ys)"
proof (induction xs arbitrary: st i)
  case Nil
  show ?case by simp
next
  case (Cons x xs)
  obtain sn r where x: "x = (sn, r)" by (cases x)
  show ?case using Cons.IH
    by (simp add: x split: prod.splits sum.splits)
qed

lemma restore_records_replay:
  "restore_records st tick i sn rs = replay st tick i (map (Pair sn) rs)"
  by (induction rs arbitrary: st i) (simp_all split: prod.splits sum.splits)

lemma restore_stores_replay:
  "restore_stores st tick i b = replay st tick i (records_of b)"
proof (induction b arbitrary: st i)
  case Nil
  show ?case by (simp add: records_of_def)
next
  case (Cons p b)
  obtain sn rs where p: "p = (sn, rs)" by (cases p)
  have "records_of (p # b) = map (Pair sn) rs @ records_of b"
    by (simp add: records_of_def p)
  then show ?case using Cons.IH
    by (simp add: p replay_append restore_records_replay split: prod.splits sum.splits)
qed

lemma in_records_of: "(sn, rs) \<in> set b \<Longrightarrow> r \<in> set rs \<Longrightarrow> (sn, r) \<in> set (records_of b)"
  by (force simp: records_of_def)

lemma live_c3: "row_of live ''customers'' (JStr ''c3'') = Some customer_t1"
  by (simp add: run_db)

text \<open>
  C6 as stated: a snapshot record whose id exists is skipped and reported, the other
  records are replayed, and a report of counts comes back. It fails: on the live store and
  \<open>snapshot\<close>, \<open>restore\<close> returns the boolean \<open>false\<close> at the conflict on \<open>c3\<close> and the
  record \<open>c9\<close> after it, which conflicts with nothing, is not created.
\<close>

theorem C6_restore_aborts_counterexample:
  "fst (restore live (\<lambda>n. noon) snapshot) = False
   \<and> row_of live ''customers'' (JStr ''c9'') = None
   \<and> row_of (snd (restore live (\<lambda>n. noon) snapshot)) ''customers'' (JStr ''c9'') = None"
  by (simp add: restore_def snapshot_def customer_c3_other_def customer_c9_def run_db)

text \<open>
  C6 as amended. For every snapshot and live state, \<open>restore\<close> replays the snapshot's
  records in order, each through \<open>add\<close>, until the first \<open>add\<close> that fails, and answers with
  a boolean: \<open>false\<close> with the state as the failing \<open>add\<close> left it, \<open>true\<close> when every \<open>add\<close>
  succeeded. Every row of the live store is unchanged afterwards, whatever the answer. A
  snapshot record that carries an id under which its store already holds a row makes the
  answer \<open>false\<close>. When the answer is \<open>true\<close>, every snapshot record with an id of its own is
  in its store, stamped by \<open>add\<close>.
\<close>

theorem C6_restore_replays_until_first_failure:
  "restore st tick b =
     (case replay st tick 0 (records_of b) of
        (Inl e, st') \<Rightarrow> (False, st')
      | (Inr m, st') \<Rightarrow> (True, st'))
   \<and> (row_of st n k = Some w \<longrightarrow> row_of (snd (restore st tick b)) n k = Some w)
   \<and> ((sn, rs) \<in> set b \<longrightarrow> r \<in> set rs \<longrightarrow> field r ''id'' \<noteq> JUndefined \<longrightarrow>
        row_of st sn (field r ''id'') = Some v \<longrightarrow> fst (restore st tick b) = False)
   \<and> (fst (restore st tick b) \<longrightarrow> (sn', rs') \<in> set b \<longrightarrow> r' \<in> set rs' \<longrightarrow>
        valid_key (field r' ''id'') \<longrightarrow>
        (\<exists>j. row_of (snd (restore st tick b)) sn' (field r' ''id'')
               = Some (stamped (currentUser st) (tick j) r')))"
proof -
  obtain res st1 where a: "replay st tick 0 (records_of b) = (res, st1)"
    by (cases "replay st tick 0 (records_of b)")
  have r: "restore st tick b = (case res of Inl e \<Rightarrow> (False, st1) | Inr m \<Rightarrow> (True, st1))"
    by (simp add: restore_def restore_stores_replay a split: sum.splits)
  have s1: "snd (restore st tick b) = st1" by (simp add: r split: sum.splits)
  have c1: "restore st tick b =
     (case replay st tick 0 (records_of b) of
        (Inl e, st') \<Rightarrow> (False, st')
      | (Inr m, st') \<Rightarrow> (True, st'))"
    by (simp add: restore_def restore_stores_replay)
  have c2: "row_of st n k = Some w \<longrightarrow> row_of (snd (restore st tick b)) n k = Some w"
    using replay_keeps [of st n k w tick 0 "records_of b"] a by (simp add: s1)
  have c3: "(sn, rs) \<in> set b \<longrightarrow> r \<in> set rs \<longrightarrow> field r ''id'' \<noteq> JUndefined \<longrightarrow>
        row_of st sn (field r ''id'') = Some v \<longrightarrow> fst (restore st tick b) = False"
  proof (intro impI)
    assume "(sn, rs) \<in> set b" "r \<in> set rs" and u: "field r ''id'' \<noteq> JUndefined"
      and v: "row_of st sn (field r ''id'') = Some v"
    then have "(sn, r) \<in> set (records_of b)" by (simp add: in_records_of)
    from replay_conflict [OF this v u, of tick 0] a obtain e where "res = Inl e" by auto
    then show "fst (restore st tick b) = False" by (simp add: r)
  qed
  have c4: "fst (restore st tick b) \<longrightarrow> (sn', rs') \<in> set b \<longrightarrow> r' \<in> set rs' \<longrightarrow>
        valid_key (field r' ''id'') \<longrightarrow>
        (\<exists>j. row_of (snd (restore st tick b)) sn' (field r' ''id'')
               = Some (stamped (currentUser st) (tick j) r'))"
  proof (intro impI)
    assume t: "fst (restore st tick b)" and "(sn', rs') \<in> set b" "r' \<in> set rs'"
      and vk: "valid_key (field r' ''id'')"
    then have m: "(sn', r') \<in> set (records_of b)" by (simp add: in_records_of)
    from t r obtain m' where "res = Inr m'" by (cases res) auto
    with a have "replay st tick 0 (records_of b) = (Inr m', st1)" by simp
    from replay_stored [OF this m vk] show "\<exists>j. row_of (snd (restore st tick b)) sn' (field r' ''id'')
               = Some (stamped (currentUser st) (tick j) r')"
      by (simp add: s1)
  qed
  from c1 c2 c3 c4 show ?thesis by blast
qed



theorem C6_restore_replays_until_first_failure_witness:
  "(''customers'', [customer_c3_other, customer_c9]) \<in> set snapshot
   \<and> row_of live ''customers'' (field customer_c3_other ''id'') = Some customer_t1
   \<and> fst (restore live (\<lambda>n. noon) snapshot) = False
   \<and> row_of (snd (restore live (\<lambda>n. noon) snapshot)) ''customers'' (JStr ''c3'')
       = Some customer_t1
   \<and> (''customers'', [customer_c9]) \<in> set snapshot_new
   \<and> valid_key (field customer_c9 ''id'')
   \<and> fst (restore live (\<lambda>n. noon) snapshot_new) = True
   \<and> row_of (snd (restore live (\<lambda>n. noon) snapshot_new)) ''customers'' (JStr ''c9'')
       = Some (stamped (Some financer_t1) noon customer_c9)
   \<and> row_of (snd (restore live (\<lambda>n. noon) snapshot_new)) ''customers'' (JStr ''c3'')
       = Some customer_t1"
proof -
  have h1: "(''customers'', [customer_c3_other, customer_c9]) \<in> set snapshot"
    by (simp add: snapshot_def)
  have h2: "customer_c3_other \<in> set [customer_c3_other, customer_c9]" by simp
  have i: "field customer_c3_other ''id'' = JStr ''c3''"
    by (simp add: customer_c3_other_def field_def)
  have h3: "row_of live ''customers'' (field customer_c3_other ''id'') = Some customer_t1"
    by (simp add: i live_c3)
  have h4: "field customer_c3_other ''id'' \<noteq> JUndefined" by (simp add: i)
  note t = C6_restore_replays_until_first_failure [where st = live and tick = "\<lambda>n. noon"
      and b = snapshot and n = "''customers''" and k = "JStr ''c3''" and w = customer_t1
      and sn = "''customers''" and rs = "[customer_c3_other, customer_c9]"
      and r = customer_c3_other and v = customer_t1]
  from t h1 h2 h3 h4 have c1: "fst (restore live (\<lambda>n. noon) snapshot) = False" by blast
  from t live_c3
  have c2: "row_of (snd (restore live (\<lambda>n. noon) snapshot)) ''customers'' (JStr ''c3'')
              = Some customer_t1"
    by blast
  have g1: "(''customers'', [customer_c9]) \<in> set snapshot_new"
    by (simp add: snapshot_new_def)
  have g2: "customer_c9 \<in> set [customer_c9]" by simp
  have j: "field customer_c9 ''id'' = JStr ''c9''"
    by (simp add: customer_c9_def field_def)
  have g3: "valid_key (field customer_c9 ''id'')" by (simp add: j)
  have g4: "fst (restore live (\<lambda>n. noon) snapshot_new) = True"
    by (simp add: restore_def snapshot_new_def customer_c9_def run_db)
  have cu: "currentUser live = Some financer_t1" by (simp add: live_def)
  note u = C6_restore_replays_until_first_failure [where st = live and tick = "\<lambda>n. noon"
      and b = snapshot_new and n = "''customers''" and k = "JStr ''c3''" and w = customer_t1
      and sn' = "''customers''" and rs' = "[customer_c9]" and r' = customer_c9]
  from u g1 g2 g3 g4
  have "\<exists>j. row_of (snd (restore live (\<lambda>n. noon) snapshot_new)) ''customers''
              (field customer_c9 ''id'') = Some (stamped (currentUser live) noon customer_c9)"
    by blast
  then have c3: "row_of (snd (restore live (\<lambda>n. noon) snapshot_new)) ''customers'' (JStr ''c9'')
                   = Some (stamped (Some financer_t1) noon customer_c9)"
    by (simp add: j cu)
  from u live_c3
  have c4: "row_of (snd (restore live (\<lambda>n. noon) snapshot_new)) ''customers'' (JStr ''c3'')
              = Some customer_t1"
    by blast
  from h1 h3 c1 c2 g1 g3 g4 c3 c4 show ?thesis by blast
qed

subsection \<open>Tenant scoping of reads\<close>

text \<open>
  C2 as stated: for a tenant-owner of tenant \<open>t1\<close>, \<open>getAll\<close> never returns a record of
  another tenant, whatever its arguments. It fails: the current user is the financer \<open>t1\<close>;
  called without a \<open>financerId\<close>, \<open>getAll\<close> returns the customer of \<open>t2\<close> too, and called
  with \<open>t2\<close> it returns exactly that customer.
\<close>

theorem C2_getAll_unscoped_counterexample:
  "ufield (currentUser live) ''role'' = JStr ''financer''
   \<and> ufield (currentUser live) ''id'' = JStr ''t1''
   \<and> field customer_t2 ''financerId'' = JStr ''t2''
   \<and> getAll live ''customers'' JNull = Inr [customer_t1, customer_t2]
   \<and> getAll live ''customers'' (JStr ''t2'') = Inr [customer_t2]"
  by (simp add: run_db)

text \<open>
  C2 as amended. For every identity whose role is \<open>financer\<close> (the tenant-owner) with id
  \<open>t1\<close>: every record that \<open>applyRoleBasedFilter\<close> lets through (the filter that
  \<open>getAllCustomers\<close> applies to what \<open>getAll\<close> returned) has \<open>financerId\<close> equal to \<open>t1\<close>.
  \<open>getAll\<close> itself scopes by its argument only: given a truthy \<open>financerId\<close>, every record it
  returns carries that \<open>financerId\<close>; given none, it returns every record of the store.
\<close>

theorem C2_tenant_scoping:
  assumes "field u ''role'' = JStr ''financer''"
  shows "(\<forall>c \<in> set (applyRoleBasedFilter (Some u) customers).
            field c ''financerId'' = field u ''id'')
     \<and> (currentUser st = Some u \<longrightarrow> truthy financerId \<longrightarrow>
          getAll st storeName financerId = Inr results \<longrightarrow>
          (\<forall>r \<in> set results. field r ''financerId'' = financerId))
     \<and> (\<not> truthy financerId \<longrightarrow> getAll st storeName financerId = Inr results \<longrightarrow>
          (\<exists>s. store_of st storeName = Some s \<and> results = map snd (rows s)))"
  using assms
  by (auto simp: applyRoleBasedFilter_def getAll_def ufield_def store_of_def
      split: option.splits if_splits)

theorem C2_tenant_scoping_witness:
  "field financer_t1 ''role'' = JStr ''financer''
   \<and> applyRoleBasedFilter (Some financer_t1) [customer_t1, customer_t2] = [customer_t1]
   \<and> field customer_t1 ''financerId'' = field financer_t1 ''id''
   \<and> currentUser live = Some financer_t1
   \<and> getAll live ''customers'' (JStr ''t1'') = Inr [customer_t1]
   \<and> field customer_t1 ''financerId'' = JStr ''t1''"
proof -
  have h1: "field financer_t1 ''role'' = JStr ''financer''"
    by (simp add: financer_t1_def field_def)
  have h2: "currentUser live = Some financer_t1" by (simp add: live_def)
  have h3: "getAll live ''customers'' (JStr ''t1'') = Inr [customer_t1]"
    by (simp add: run_db)
  have h4: "applyRoleBasedFilter (Some financer_t1) [customer_t1, customer_t2] = [customer_t1]"
    by (simp add: applyRoleBasedFilter_def financer_t1_def customer_t1_def customer_t2_def
        field_def)
  have h5: "field financer_t1 ''id'' = JStr ''t1''"
    by (simp add: financer_t1_def field_def)
  from C2_tenant_scoping [OF h1, of "[customer_t1, customer_t2]" live "JStr ''t1''"
      "''customers''" "[customer_t1]"] h1 h2 h3 h4 h5
  show ?thesis by simp
qed

subsection \<open>Mutations and their audit entries\<close>

lemma request_other:
  "n \<noteq> sn \<Longrightarrow> map_of (snd (request d sn req)) n = map_of d n"
  by (auto simp: request_def update_conv' split: option.splits sum.splits prod.splits)

lemma audit_append:
  assumes "keyGenerator a \<le> generator_limit" and "\<not> has_key a (JNum (keyGenerator a))"
    and "uniqueIndexes a = []"
  shows "store_add a (auditEntry cu clk action target targetId)
         = Inr (JNum (keyGenerator a), logged a (auditEntry cu clk action target targetId))"
proof -
  have "field (auditEntry cu clk action target targetId) ''id'' = JUndefined"
    by (simp add: auditEntry_def field_def)
  then show ?thesis using assms
    by (simp add: store_add_def insert_row_def index_clash_def logged_def)
qed

lemma audited_settled:
  assumes d: "db st = Some d" and s: "map_of d sn = Some s"
    and a: "map_of d ''auditLog'' = Some a" and ne: "sn \<noteq> ''auditLog''"
    and lim: "keyGenerator a \<le> generator_limit"
    and fresh: "\<not> has_key a (JNum (keyGenerator a))" and nouniq: "uniqueIndexes a = []"
  shows "audited st clk action sn targetId req
         = settled st d sn a (auditEntry (currentUser st) clk action sn targetId) (req s)"
proof (cases "req s")
  case (Inl e)
  then show ?thesis using d s a
    by (simp add: audited_def contains_def request_def logAudit_def settled_def
        audit_append [OF lim fresh nouniq])
next
  case (Inr p)
  obtain r s' where p: "p = (r, s')" by (cases p)
  have "map_of (AList.update sn s' d) ''auditLog'' = Some a"
    using a ne by (simp add: update_conv')
  then show ?thesis using d s Inr p
    by (simp add: audited_def contains_def request_def logAudit_def settled_def
        audit_append [OF lim fresh nouniq])
qed

lemma audited_without_log:
  assumes "db st = Some d" and "contains d sn" and "\<not> contains d ''auditLog''"
  shows "audited st clk action sn targetId req
         = (fst (request d sn req), st\<lparr>db := Some (snd (request d sn req))\<rparr>)"
proof -
  have "sn \<noteq> ''auditLog''" using assms(2,3) by auto
  then have "map_of (snd (request d sn req)) ''auditLog'' = None"
    using assms(3) by (simp add: request_other contains_def)
  then show ?thesis using assms(1,2)
    by (simp add: audited_def logAudit_def request_def)
qed

text \<open>
  C4 as stated: a mutation and its audit entry persist together or not at all. It fails
  both ways. Adding a customer under the id \<open>c3\<close>, which exists, is rejected with
  \<open>ConstraintError\<close> and the store is as before, yet the audit store holds the entry for
  the add. On a database without the \<open>auditLog\<close> store the append fails, yet the new customer
  \<open>c9\<close> is stored.
\<close>

theorem C4_not_atomic_counterexample:
  "fst (add live noon ''customers'' customer_c3_other) = Inl ConstraintError
   \<and> store_of (snd (add live noon ''customers'' customer_c3_other)) ''customers''
       = store_of live ''customers''
   \<and> store_of live ''auditLog'' = Some (empty_store [])
   \<and> store_of (snd (add live noon ''customers'' customer_c3_other)) ''auditLog''
       = Some (logged (empty_store [])
                 (auditEntry (Some financer_t1) noon ''ADD'' ''customers'' (JStr ''c3'')))
   \<and> fst (add live_no_audit noon ''customers'' customer_c9) = Inr (JStr ''c9'')
   \<and> row_of live_no_audit ''customers'' (JStr ''c9'') = None
   \<and> row_of (snd (add live_no_audit noon ''customers'' customer_c9)) ''customers'' (JStr ''c9'')
       \<noteq> None
   \<and> store_of (snd (add live_no_audit noon ''customers'' customer_c9)) ''auditLog'' = None"
  by (simp add: customer_c3_other_def customer_c9_def live_no_audit_def logged_def run_db)

text \<open>
  C4 as amended. A mutating call on a store other than the audit store appends its audit
  entry in a transaction of its own and never looks at the outcome. With the audit store in
  place and able to take an entry, \<open>add\<close>, \<open>update\<close> of an object and \<open>delete\<close> end in the
  state \<open>settled\<close>: the audit store has exactly one entry more whether the request succeeded
  or failed, the store holds the request's result when it succeeded and is unchanged when
  it failed, and the call's outcome is the request's. \<open>update\<close> handed a primitive for its
  data rejects with \<open>TypeError\<close> and writes nothing, no audit entry either. Without the audit
  store the append is lost and each call is its bare request: nothing is rolled back.
\<close>

theorem C4_mutation_and_audit_settle_apart:
  assumes d: "db st = Some d" and s: "map_of d sn = Some s"
    and a: "map_of d ''auditLog'' = Some a" and ne: "sn \<noteq> ''auditLog''"
    and lim: "keyGenerator a \<le> generator_limit"
    and fresh: "\<not> has_key a (JNum (keyGenerator a))" and nouniq: "uniqueIndexes a = []"
  shows "add st clk sn data
           = settled st d sn a
               (auditEntry (currentUser st) clk ''ADD'' sn
                  (if truthy (field data ''id'') then field data ''id'' else JStr ''new''))
               (store_add s (stamped (currentUser st) clk data))
     \<and> update st clk sn (Obj data)
           = settled st d sn a
               (auditEntry (currentUser st) clk ''UPDATE'' sn (field data ''id''))
               (store_put s (AList.update ''_updatedBy'' (ufield (currentUser st) ''id'')
                               (AList.update ''_updatedAt'' (JNum (now clk)) data)))
     \<and> update st clk sn (Prim p) = (Inl TypeError, st)
     \<and> delete st clk sn k
           = settled st d sn a (auditEntry (currentUser st) clk ''DELETE'' sn k)
               (store_delete s k)
     \<and> (db st' = Some d' \<longrightarrow> contains d' sn' \<longrightarrow> \<not> contains d' ''auditLog'' \<longrightarrow>
          add st' clk sn' data
            = (fst (request d' sn' (\<lambda>s. store_add s (stamped (currentUser st') clk data))),
               st'\<lparr>db := Some (snd (request d' sn'
                                    (\<lambda>s. store_add s (stamped (currentUser st') clk data))))\<rparr>)
          \<and> update st' clk sn' (Obj data)
            = (fst (request d' sn' (\<lambda>s. store_put s
                       (AList.update ''_updatedBy'' (ufield (currentUser st') ''id'')
                          (AList.update ''_updatedAt'' (JNum (now clk)) data)))),
               st'\<lparr>db := Some (snd (request d' sn' (\<lambda>s. store_put s
                       (AList.update ''_updatedBy'' (ufield (currentUser st') ''id'')
                          (AList.update ''_updatedAt'' (JNum (now clk)) data)))))\<rparr>)
          \<and> delete st' clk sn' k
            = (fst (request d' sn' (\<lambda>s. store_delete s k)),
               st'\<lparr>db := Some (snd (request d' sn' (\<lambda>s. store_delete s k)))\<rparr>))"
proof -
  note as = audited_settled [OF d s a ne lim fresh nouniq]
  have c: "contains d sn" using s by (simp add: contains_def)
  have i: "field (AList.update ''_updatedBy'' x (AList.update ''_updatedAt'' y data)) ''id''
        = field data ''id''" for x y
    by (simp add: field_update_other)
  have c1: "add st clk sn data
           = settled st d sn a
               (auditEntry (currentUser st) clk ''ADD'' sn
                  (if truthy (field data ''id'') then field data ''id'' else JStr ''new''))
               (store_add s (stamped (currentUser st) clk data))"
    by (simp add: add_stamped as)
  have c2: "update st clk sn (Obj data)
           = settled st d sn a
               (auditEntry (currentUser st) clk ''UPDATE'' sn (field data ''id''))
               (store_put s (AList.update ''_updatedBy'' (ufield (currentUser st) ''id'')
                               (AList.update ''_updatedAt'' (JNum (now clk)) data)))"
    using d c by (simp add: update_def Let_def as i)
  have c3: "update st clk sn (Prim p) = (Inl TypeError, st)"
    using d c by (simp add: update_def)
  have c4: "delete st clk sn k
           = settled st d sn a (auditEntry (currentUser st) clk ''DELETE'' sn k)
               (store_delete s k)"
    by (simp add: delete_def as)
  show ?thesis
    by (simp add: c1 c2 c3 c4) (simp add: add_stamped update_def delete_def Let_def audited_without_log)
qed

theorem C4_mutation_and_audit_settle_apart_witness:
  "add live noon ''customers'' customer_c3_other
     = (Inl ConstraintError,
        live\<lparr>db := Some (AList.update ''auditLog''
                 (logged (empty_store [])
                    (auditEntry (Some financer_t1) noon ''ADD'' ''customers'' (JStr ''c3'')))
                 live_db)\<rparr>)
   \<and> update live noon ''customers'' (Prim (JStr ''c3'')) = (Inl TypeError, live)
   \<and> fst (delete live noon ''customers'' (JStr ''c7'')) = Inr ()
   \<and> row_of (snd (delete live noon ''customers'' (JStr ''c7''))) ''customers'' (JStr ''c7'') = None
   \<and> store_of (snd (delete live noon ''customers'' (JStr ''c7''))) ''auditLog''
       = Some (logged (empty_store [])
                 (auditEntry (Some financer_t1) noon ''DELETE'' ''customers'' (JStr ''c7'')))
   \<and> delete live_no_audit noon ''customers'' (JStr ''c7'')
       = (fst (request (AList.delete ''auditLog'' live_db) ''customers''
                 (\<lambda>s. store_delete s (JStr ''c7''))),
          live_no_audit\<lparr>db := Some (snd (request (AList.delete ''auditLog'' live_db) ''customers''
                                           (\<lambda>s. store_delete s (JStr ''c7''))))\<rparr>)"
proof -
  have h1: "db live = Some live_db" by (simp add: live_def)
  have h2: "map_of live_db ''customers''
              = Some \<lparr>rows = [(JStr ''c3'', customer_t1), (JStr ''c7'', customer_t2)],
                      keyGenerator = 1, uniqueIndexes = [''vehicleNo'']\<rparr>"
    by (simp add: live_db_def)
  have h3: "map_of live_db ''auditLog'' = Some (empty_store [])" by (simp add: live_db_def)
  have h4: "''customers'' \<noteq> ''auditLog''" by simp
  have h5: "keyGenerator (empty_store []) \<le> generator_limit"
    by (simp add: empty_store_def generator_limit_def)
  have h6: "\<not> has_key (empty_store []) (JNum (keyGenerator (empty_store [])))"
    by (simp add: has_key_def empty_store_def)
  have h7: "uniqueIndexes (empty_store []) = []" by (simp add: empty_store_def)
  have n1: "db live_no_audit = Some (AList.delete ''auditLog'' live_db)"
    by (simp add: live_no_audit_def)
  have n2: "contains (AList.delete ''auditLog'' live_db) ''customers''"
    by (simp add: contains_def live_db_def)
  have n3: "\<not> contains (AList.delete ''auditLog'' live_db) ''auditLog''"
    by (simp add: contains_def live_db_def)
  have cu: "currentUser live = Some financer_t1" by (simp add: live_def)
  have i: "field customer_c3_other ''id'' = JStr ''c3''"
    by (simp add: customer_c3_other_def field_def)
  have f: "store_add \<lparr>rows = [(JStr ''c3'', customer_t1), (JStr ''c7'', customer_t2)],
                       keyGenerator = 1, uniqueIndexes = [''vehicleNo'']\<rparr>
             (stamped (Some financer_t1) noon customer_c3_other) = Inl ConstraintError"
    by (simp add: store_add_def field_stamped_id i insert_row_def has_key_def)
  have g: "store_delete \<lparr>rows = [(JStr ''c3'', customer_t1), (JStr ''c7'', customer_t2)],
                          keyGenerator = 1, uniqueIndexes = [''vehicleNo'']\<rparr> (JStr ''c7'')
             = Inr ((), \<lparr>rows = [(JStr ''c3'', customer_t1)],
                          keyGenerator = 1, uniqueIndexes = [''vehicleNo'']\<rparr>)"
    by (simp add: store_delete_def)
  note t = C4_mutation_and_audit_settle_apart [OF h1 h2 h3 h4 h5 h6 h7,
      where clk = noon and data = customer_c3_other and p = "JStr ''c3''" and k = "JStr ''c7''"
      and st' = live_no_audit and d' = "AList.delete ''auditLog'' live_db"
      and sn' = "''customers''"]
  from t have a1: "add live noon ''customers'' customer_c3_other
     = (Inl ConstraintError,
        live\<lparr>db := Some (AList.update ''auditLog''
                 (logged (empty_store [])
                    (auditEntry (Some financer_t1) noon ''ADD'' ''customers'' (JStr ''c3'')))
                 live_db)\<rparr>)"
    by (simp add: cu i f settled_def)
  from t have a2: "update live noon ''customers'' (Prim (JStr ''c3'')) = (Inl TypeError, live)"
    by blast
  from t have a3: "delete live noon ''customers'' (JStr ''c7'')
     = (Inr (), live\<lparr>db := Some (AList.update ''auditLog''
                 (logged (empty_store [])
                    (auditEntry (Some financer_t1) noon ''DELETE'' ''customers'' (JStr ''c7'')))
                 (AList.update ''customers''
                    \<lparr>rows = [(JStr ''c3'', customer_t1)],
                       keyGenerator = 1, uniqueIndexes = [''vehicleNo'']\<rparr> live_db))\<rparr>)"
    by (simp add: cu g settled_def)
  have b1: "fst (delete live noon ''customers'' (JStr ''c7'')) = Inr ()" unfolding a3 by simp
  have b2: "row_of (snd (delete live noon ''customers'' (JStr ''c7''))) ''customers'' (JStr ''c7'')
              = None"
    unfolding a3 by (simp add: row_of_def rowd_def live_def live_db_def customer_t1_def)
  have b3: "store_of (snd (delete live noon ''customers'' (JStr ''c7''))) ''auditLog''
       = Some (logged (empty_store [])
                 (auditEntry (Some financer_t1) noon ''DELETE'' ''customers'' (JStr ''c7'')))"
    unfolding a3 by (simp add: store_of_def live_def live_db_def)
  from t n1 n2 n3 have a4: "delete live_no_audit noon ''customers'' (JStr ''c7'')
       = (fst (request (AList.delete ''auditLog'' live_db) ''customers''
                 (\<lambda>s. store_delete s (JStr ''c7''))),
          live_no_audit\<lparr>db := Some (snd (request (AList.delete ''auditLog'' live_db) ''customers''
                                           (\<lambda>s. store_delete s (JStr ''c7''))))\<rparr>)"
    by blast
  from a1 a2 b1 b2 b3 a4 show ?thesis by blast
qed

subsection \<open>Readiness\<close>

text \<open>
  C7, at the state the constructor leaves (the open request issued, no answer yet, the
  handle \<open>null\<close>): \<open>update\<close>, \<open>delete\<close> and \<open>getAll\<close> have no readiness gate and reject with the
  \<open>TypeError\<close> of \<open>this.db.transaction\<close> on \<open>null\<close>, whether \<open>update\<close> is handed an object or,
  as its callers do, an id; \<open>add\<close> waits first, but the wait does not set the handle, and it
  rejects the same way; the audit append is lost. None of them queues and none fails with a
  readiness error.
\<close>

theorem C7_calls_before_open_hit_null_handle:
  "db new_FinanceDB = None \<and> \<not> isReady new_FinanceDB
   \<and> update new_FinanceDB noon ''customers'' (Obj customer_t1) = (Inl TypeError, new_FinanceDB)
   \<and> update new_FinanceDB noon ''customers'' (Prim (JStr ''c3'')) = (Inl TypeError, new_FinanceDB)
   \<and> delete new_FinanceDB noon ''customers'' (JStr ''c3'') = (Inl TypeError, new_FinanceDB)
   \<and> getAll new_FinanceDB ''customers'' JNull = Inl TypeError
   \<and> add new_FinanceDB noon ''customers'' customer_t1 = (Inl TypeError, new_FinanceDB)
   \<and> logAudit new_FinanceDB noon ''ADD'' ''customers'' (JStr ''c3'') = new_FinanceDB"
  by (simp add: run_db)

subsection \<open>Self-healing\<close>

text \<open>
  C8, at two engines whose open handle lacks exactly one of the six collections. Where
  \<open>auditLog\<close> is the one missing, \<open>runSelfHealing\<close> changes nothing: the list it walks does
  not name \<open>auditLog\<close>, the version stays and no open request is issued. Where \<open>customers\<close>
  is the one missing, the version goes from 1 to 2 and one open request at version 2 is
  issued, but the handle is kept as it is, still open and still without the store. And a
  successful open of such a database runs no healing at all: the version stays 1 and the
  store stays missing. In none of the three is the missing collection there when the call
  returns.
\<close>

theorem C8_self_healing_leaves_store_missing:
  "filter (\<lambda>n. \<not> contains (AList.delete ''auditLog'' live_db) n) (healed_stores @ [''auditLog''])
     = [''auditLog'']
   \<and> runSelfHealing live_no_audit = live_no_audit
   \<and> filter (\<lambda>n. \<not> contains db_no_customers n) (healed_stores @ [''auditLog''])
       = [''customers'']
   \<and> version live_no_customers = 1
   \<and> version (runSelfHealing live_no_customers) = 2
   \<and> openRequests (runSelfHealing live_no_customers) = [2]
   \<and> db (runSelfHealing live_no_customers) = Some db_no_customers
   \<and> version (onsuccess new_FinanceDB db_no_customers) = 1
   \<and> db (onsuccess new_FinanceDB db_no_customers) = Some db_no_customers"
  by (simp add: runSelfHealing_def onsuccess_def healed_stores_def db_no_customers_def
      live_no_audit_def live_no_customers_def run_db)

end
